theory Spec2Isabelle
  imports Main "HOL-Library.Multiset"
begin

section \<open>Pagination fields of \<open>rest_framework_json_api/pagination.py\<close>\<close>

text \<open>
  The module formats the state of a page of results in two shapes: the serializer
  \<open>PaginationSerializer\<close>, whose fields are sibling keys, and the class
  \<open>PageNumberPagination\<close>, whose \<open>get_paginated_response\<close> nests the same data
  under \<open>meta\<close> and \<open>links\<close>. The page, its paginator and the request come from
  Django and the REST framework; here they are records of what the module reads.
\<close>

subsection \<open>Data\<close>

text \<open>
  The serialized form of \<open>PaginationSerializer\<close>: one field of the record for each
  field the class declares, in the order of the declarations. Python's \<open>None\<close> is
  \<open>None\<close>.
\<close>

record pagination_data =
  "next" :: "int option"
  next_link :: "string option"
  page :: int
  previous :: "int option"
  previous_link :: "string option"
  count :: int
  total :: int

text \<open>
  A call of \<open>next_page_number()\<close> or \<open>previous_page_number()\<close> on a page that has
  no such neighbour raises; the exception is a value of the model.
\<close>

datatype error = EmptyPage

record paginator =
  count :: int
  num_pages :: int

text \<open>
  The page is read-only while a response is built, so each of its methods is a field
  holding what the call returns (\<open>Inl\<close>: what it raises).
\<close>

record page =
  number :: int
  has_next :: bool
  has_previous :: bool
  next_page_number :: "error + int"
  previous_page_number :: "error + int"
  paginator :: paginator

record request =
  build_absolute_uri :: string

text \<open>The attributes of a \<open>PageNumberPagination\<close> that its two methods read.\<close>

record PageNumberPagination =
  request :: "request option"
  page :: page

text \<open>
  A serializer field reads the dictionary \<open>self.context\<close> with \<open>get\<close>, which gives
  \<open>None\<close> for a key that is not there.
\<close>

record ReadOnlyField =
  "context" :: "string \<rightharpoonup> request"

text \<open>
  The dictionary handed to \<open>Response\<close>: \<open>results\<close> holds the data as given, the
  two \<open>OrderedDict\<close>s are association lists in the order of the source.
\<close>

record 'a response =
  results :: 'a
  meta :: "(string \<times> (string \<times> int) list) list"
  links :: "(string \<times> string option) list"

subsection \<open>Setting a query parameter\<close>

text \<open>
  Modelled from the spec: \<open>replace_query_param\<close> of
  \<open>rest_framework.templatetags.rest_framework\<close>, which this module imports and which
  is not among its sources. Every definition of this subsection is a part of that
  model and has no counterpart in the module. The model works on the text of the URL:
  everything before the first \<open>?\<close> is the host and path, the rest is the query
  string, a list of parameters separated by \<open>&\<close>, each a key, or a key and a value
  separated by the first \<open>=\<close>. A fragment, which the URL of a request does not have,
  is not told from the rest.
\<close>

text \<open>
  Modelled from the spec: the digits of the page index in a link, as in the spec's
  \<open>?page=3\<close>; the text is that of Python's \<open>str\<close> on an integer.
\<close>

definition digit_char :: "nat \<Rightarrow> char" where
  "digit_char d = ''0123456789'' ! d"

fun str_nat :: "nat \<Rightarrow> string" where
  "str_nat n = (if n < 10 then [digit_char n] else str_nat (n div 10) @ [digit_char (n mod 10)])"

declare str_nat.simps [simp del]

definition str_int :: "int \<Rightarrow> string" where
  "str_int i = (if i < 0 then CHR ''-'' # str_nat (nat (- i)) else str_nat (nat i))"

text \<open>
  Modelled from the spec: the text before the first \<open>c\<close>, and the text after it if
  there is one, as \<open>s.partition(c)\<close> gives them.
\<close>

definition partition_at :: "char \<Rightarrow> string \<Rightarrow> string \<times> string option" where
  "partition_at c s =
     (takeWhile (\<lambda>x. x \<noteq> c) s,
      case dropWhile (\<lambda>x. x \<noteq> c) s of [] \<Rightarrow> None | _ # r \<Rightarrow> Some r)"

text \<open>
  Modelled from the spec: \<open>s.split(c)\<close> and \<open>c.join(ws)\<close> for a separator of one
  character; a text with no separator is one part.
\<close>

fun split_on :: "char \<Rightarrow> string \<Rightarrow> string list" where
  "split_on c [] = [ [] ]"
| "split_on c (x # xs) =
     (if x = c then [] # split_on c xs
      else (x # hd (split_on c xs)) # tl (split_on c xs))"

fun join :: "char \<Rightarrow> string list \<Rightarrow> string" where
  "join c [] = []"
| "join c [w] = w"
| "join c (w # v # ws) = w @ c # join c (v # ws)"

text \<open>
  Modelled from the spec: a query parameter is its key and, after the first \<open>=\<close>, its
  value; a URL is its host and path and, after the first \<open>?\<close>, its parameters.
  Writing a parsed URL gives the text it was read from.
\<close>

type_synonym param = "string \<times> string option"

definition parse_param :: "string \<Rightarrow> param" where
  "parse_param s = partition_at CHR ''='' s"

fun unparse_param :: "param \<Rightarrow> string" where
  "unparse_param (k, None) = k"
| "unparse_param (k, Some v) = k @ CHR ''='' # v"

definition parse_url :: "string \<Rightarrow> string \<times> param list" where
  "parse_url url =
     (case partition_at CHR ''?'' url of
        (base, None) \<Rightarrow> (base, [])
      | (base, Some query) \<Rightarrow> (base, map parse_param (split_on CHR ''&'' query)))"

fun unparse_url :: "string \<times> param list \<Rightarrow> string" where
  "unparse_url (base, []) = base"
| "unparse_url (base, p # ps) = base @ CHR ''?'' # join CHR ''&'' (map unparse_param (p # ps))"

text \<open>
  Modelled from the spec: the parameters that \<open>parse_param\<close> can return have no
  \<open>=\<close> in the key and no \<open>&\<close> in the key or the value.
\<close>

definition wf_param :: "param \<Rightarrow> bool" where
  "wf_param p \<longleftrightarrow>
     CHR ''='' \<notin> set (fst p) \<and> CHR ''&'' \<notin> set (fst p) \<and>
     (case snd p of None \<Rightarrow> True | Some v \<Rightarrow> CHR ''&'' \<notin> set v)"

text \<open>
  Modelled from the spec: replacing the value of a parameter, or appending the
  parameter if it is absent, with all other parameters preserved. The value of every
  parameter named \<open>key\<close> becomes \<open>val\<close>; when there is none, the parameter is added
  after the others.
\<close>

definition set_param :: "string \<Rightarrow> string \<Rightarrow> param list \<Rightarrow> param list" where
  "set_param key val ps =
     (if key \<in> fst ` set ps
      then map (\<lambda>(k, v). if k = key then (k, Some val) else (k, v)) ps
      else ps @ [(key, Some val)])"

text \<open>
  Modelled from the spec: \<open>replace_query_param\<close> itself. The spec's rule: given a URL
  possibly already containing the parameter, replace its value; if absent, append it;
  preserve all other existing query parameters and the path and host untouched.
\<close>

definition replace_query_param :: "string \<Rightarrow> string \<Rightarrow> int \<Rightarrow> string" where
  "replace_query_param url key val =
     (case parse_url url of (base, ps) \<Rightarrow> unparse_url (base, set_param key (str_int val) ps))"

subsection \<open>The serializer fields\<close>

text \<open>The class attribute \<open>page_field\<close>, the same in each of the five field classes.\<close>

definition page_field :: string where
  "page_field = ''page''"

text \<open>
  In \<open>request and request.build_absolute_uri() or ''\<close> a missing request and an
  empty URL both give the empty string.
\<close>

definition NextPageLinkField_to_representation ::
    "ReadOnlyField \<Rightarrow> page \<Rightarrow> error + string option" where
  "NextPageLinkField_to_representation self value =
     (if \<not> has_next value then Inr None
      else case next_page_number value of
        Inl e \<Rightarrow> Inl e
      | Inr n \<Rightarrow>
          let request = context self ''request'';
              url = (case request of
                       None \<Rightarrow> []
                     | Some r \<Rightarrow> if build_absolute_uri r \<noteq> [] then build_absolute_uri r else [])
          in Inr (Some (replace_query_param url page_field n)))"

definition NextPageField_to_representation ::
    "ReadOnlyField \<Rightarrow> page \<Rightarrow> error + int option" where
  "NextPageField_to_representation self value =
     (if \<not> has_next value then Inr None
      else case next_page_number value of Inl e \<Rightarrow> Inl e | Inr n \<Rightarrow> Inr (Some n))"

definition PreviousPageLinkField_to_representation ::
    "ReadOnlyField \<Rightarrow> page \<Rightarrow> error + string option" where
  "PreviousPageLinkField_to_representation self value =
     (if \<not> has_previous value then Inr None
      else case previous_page_number value of
        Inl e \<Rightarrow> Inl e
      | Inr n \<Rightarrow>
          let request = context self ''request'';
              url = (case request of
                       None \<Rightarrow> []
                     | Some r \<Rightarrow> if build_absolute_uri r \<noteq> [] then build_absolute_uri r else [])
          in Inr (Some (replace_query_param url page_field n)))"

definition PreviousPageField_to_representation ::
    "ReadOnlyField \<Rightarrow> page \<Rightarrow> error + int option" where
  "PreviousPageField_to_representation self value =
     (if \<not> has_previous value then Inr None
      else case previous_page_number value of Inl e \<Rightarrow> Inl e | Inr n \<Rightarrow> Inr (Some n))"

definition PageField_to_representation :: "ReadOnlyField \<Rightarrow> page \<Rightarrow> int" where
  "PageField_to_representation self value = number value"

text \<open>
  \<open>PaginationSerializer\<close> declares seven fields; serializing a page evaluates them in
  the order of the declarations, each field with the serializer's context, and the
  first exception ends the serialization. The fields with \<open>source='*'\<close> are given the
  page itself, the last two read \<open>paginator.count\<close> and \<open>paginator.num_pages\<close>.
\<close>

definition PaginationSerializer :: "(string \<rightharpoonup> request) \<Rightarrow> page \<Rightarrow> error + pagination_data" where
  "PaginationSerializer ctx value =
     (let field = \<lparr>context = ctx\<rparr> in
      (case NextPageField_to_representation field value of
         Inl e \<Rightarrow> Inl e
       | Inr nxt \<Rightarrow>
      (case NextPageLinkField_to_representation field value of
         Inl e \<Rightarrow> Inl e
       | Inr nxt_link \<Rightarrow>
      (case PreviousPageField_to_representation field value of
         Inl e \<Rightarrow> Inl e
       | Inr prv \<Rightarrow>
      (case PreviousPageLinkField_to_representation field value of
         Inl e \<Rightarrow> Inl e
       | Inr prv_link \<Rightarrow>
           Inr \<lparr>next = nxt,
                next_link = nxt_link,
                pagination_data.page = PageField_to_representation field value,
                previous = prv,
                previous_link = prv_link,
                pagination_data.count = paginator.count (paginator value),
                total = num_pages (paginator value)\<rparr>)))))"

subsection \<open>The json-api pagination format\<close>

text \<open>
  \<open>not index\<close> holds for \<open>None\<close> and for the integer \<open>0\<close>.
\<close>

definition build_link :: "PageNumberPagination \<Rightarrow> int option \<Rightarrow> string option" where
  "build_link self index =
     (case index of
        None \<Rightarrow> None
      | Some i \<Rightarrow>
          if i = 0 then None
          else
            let url = (case request self of
                         None \<Rightarrow> []
                       | Some r \<Rightarrow> if build_absolute_uri r \<noteq> [] then build_absolute_uri r else [])
            in Some (replace_query_param url ''page'' i))"

definition get_paginated_response :: "PageNumberPagination \<Rightarrow> 'a \<Rightarrow> error + 'a response" where
  "get_paginated_response self data =
     (case (if has_next (page self)
            then (case next_page_number (page self) of Inl e \<Rightarrow> Inl e | Inr n \<Rightarrow> Inr (Some n))
            else Inr None) of
        Inl e \<Rightarrow> Inl e
      | Inr nxt \<Rightarrow>
     (case (if has_previous (page self)
            then (case previous_page_number (page self) of Inl e \<Rightarrow> Inl e | Inr n \<Rightarrow> Inr (Some n))
            else Inr None) of
        Inl e \<Rightarrow> Inl e
      | Inr prv \<Rightarrow>
          Inr \<lparr>results = data,
               meta = [(''pagination'',
                        [(''page'', number (page self)),
                         (''pages'', num_pages (paginator (page self))),
                         (''count'', paginator.count (paginator (page self)))])],
               links = [(''first'', build_link self (Some 1)),
                        (''last'', build_link self (Some (num_pages (paginator (page self))))),
                        (''next'', build_link self nxt),
                        (''prev'', build_link self prv)]\<rparr>))"

subsection \<open>Pages of the examples\<close>

text \<open>
  Page 2 of 5 of 98 items, requested at \<open>https://api.example.com/things\<close>; the only
  page of three items; and the page of an empty result, whose paginator counts no page.
  The last two are serialized with no request at hand.
\<close>

definition example_request :: request where
  "example_request = \<lparr>build_absolute_uri = ''https://api.example.com/things''\<rparr>"

definition example_page :: page where
  "example_page =
     \<lparr>number = 2, has_next = True, has_previous = True,
      next_page_number = Inr 3, previous_page_number = Inr 1,
      paginator = \<lparr>count = 98, num_pages = 5\<rparr>\<rparr>"

definition example_self :: PageNumberPagination where
  "example_self = \<lparr>request = Some example_request, page = example_page\<rparr>"

definition example_context :: "string \<rightharpoonup> request" where
  "example_context = [''request'' \<mapsto> example_request]"

definition single_page :: page where
  "single_page =
     \<lparr>number = 1, has_next = False, has_previous = False,
      next_page_number = Inl EmptyPage, previous_page_number = Inl EmptyPage,
      paginator = \<lparr>count = 3, num_pages = 1\<rparr>\<rparr>"

definition empty_page :: page where
  "empty_page =
     \<lparr>number = 1, has_next = False, has_previous = False,
      next_page_number = Inl EmptyPage, previous_page_number = Inl EmptyPage,
      paginator = \<lparr>count = 0, num_pages = 0\<rparr>\<rparr>"

definition example_envelope :: "'a \<Rightarrow> 'a response" where
  "example_envelope data =
     \<lparr>results = data,
      meta = [(''pagination'', [(''page'', 2), (''pages'', 5), (''count'', 98)])],
      links = [(''first'', Some ''https://api.example.com/things?page=1''),
               (''last'', Some ''https://api.example.com/things?page=5''),
               (''next'', Some ''https://api.example.com/things?page=3''),
               (''prev'', Some ''https://api.example.com/things?page=1'')]\<rparr>"

definition empty_self :: PageNumberPagination where
  "empty_self = \<lparr>request = None, page = empty_page\<rparr>"

definition empty_envelope :: "'a \<Rightarrow> 'a response" where
  "empty_envelope data =
     \<lparr>results = data,
      meta = [(''pagination'', [(''page'', 1), (''pages'', 0), (''count'', 0)])],
      links = [(''first'', Some ''?page=1''),
               (''last'', None),
               (''next'', None),
               (''prev'', None)]\<rparr>"

definition single_self :: PageNumberPagination where
  "single_self = \<lparr>request = None, page = single_page\<rparr>"

definition single_envelope :: "'a \<Rightarrow> 'a response" where
  "single_envelope data =
     \<lparr>results = data,
      meta = [(''pagination'', [(''page'', 1), (''pages'', 1), (''count'', 3)])],
      links = [(''first'', Some ''?page=1''),
               (''last'', Some ''?page=1''),
               (''next'', None),
               (''prev'', None)]\<rparr>"

text \<open>A field whose context holds no request, and the serialized example page.\<close>

definition no_request_field :: ReadOnlyField where
  "no_request_field = \<lparr>context = Map.empty\<rparr>"

definition example_data :: pagination_data where
  "example_data =
     \<lparr>next = Some 3,
      next_link = Some ''https://api.example.com/things?page=3'',
      pagination_data.page = 2,
      previous = Some 1,
      previous_link = Some ''https://api.example.com/things?page=1'',
      pagination_data.count = 98,
      total = 5\<rparr>"

text \<open>A request for \<open>?page=0\<close>.\<close>

definition zero_request :: request where
  "zero_request = \<lparr>build_absolute_uri = ''https://api.example.com/things?page=0''\<rparr>"

definition zero_self :: PageNumberPagination where
  "zero_self = \<lparr>request = Some zero_request, page = example_page\<rparr>"

text \<open>A request for the third page, whose URL already names it after another parameter.\<close>

definition three_request :: request where
  "three_request = \<lparr>build_absolute_uri = ''https://api.example.com/things?sort=name&page=3''\<rparr>"

definition three_self :: PageNumberPagination where
  "three_self = \<lparr>request = Some three_request, page = example_page\<rparr>"

text \<open>A request whose URL names the page twice.\<close>

definition twice_request :: request where
  "twice_request = \<lparr>build_absolute_uri = ''https://api.example.com/things?page=3&page=4''\<rparr>"

definition twice_self :: PageNumberPagination where
  "twice_self = \<lparr>request = Some twice_request, page = example_page\<rparr>"

section \<open>Properties\<close>

subsection \<open>Splitting and joining\<close>

lemma split_on_not_Nil: "split_on c s \<noteq> []"
  by (induction s) auto

lemma join_split_on: "join c (split_on c s) = s"
proof (induction s)
  case Nil
  then show ?case by simp
next
  case (Cons x xs)
  obtain w ws where sp: "split_on c xs = w # ws"
    using split_on_not_Nil [of c xs] by (cases "split_on c xs") auto
  with Cons show ?case by (cases ws) auto
qed

lemma split_on_no_sep: "c \<notin> set w \<Longrightarrow> split_on c w = [w]"
  by (induction w) auto

lemma split_on_append_sep: "c \<notin> set w \<Longrightarrow> split_on c (w @ c # s) = w # split_on c s"
  by (induction w) auto

lemma split_on_join:
  "ws \<noteq> [] \<Longrightarrow> \<forall>w \<in> set ws. c \<notin> set w \<Longrightarrow> split_on c (join c ws) = ws"
proof (induction c ws rule: join.induct)
  case (1 c)
  then show ?case by simp
next
  case (2 c w)
  then show ?case by (simp add: split_on_no_sep)
next
  case (3 c w v ws)
  then show ?case by (simp add: split_on_append_sep)
qed

lemma split_on_parts: "w \<in> set (split_on c s) \<Longrightarrow> c \<notin> set w"
proof (induction s arbitrary: w)
  case Nil
  then show ?case by simp
next
  case (Cons x xs)
  obtain v vs where sp: "split_on c xs = v # vs"
    using split_on_not_Nil [of c xs] by (cases "split_on c xs") auto
  with Cons show ?case by (auto split: if_splits)
qed

lemma partition_at_no_sep: "c \<notin> set s \<Longrightarrow> partition_at c s = (s, None)"
  by (induction s) (auto simp: partition_at_def)

lemma partition_at_sep: "c \<notin> set k \<Longrightarrow> partition_at c (k @ c # v) = (k, Some v)"
  by (induction k) (auto simp: partition_at_def)

lemma partition_at_fst: "c \<notin> set (fst (partition_at c s))"
  by (induction s) (auto simp: partition_at_def)

lemma partition_at_None: "partition_at c s = (k, None) \<Longrightarrow> s = k"
  by (induction s arbitrary: k) (auto simp: partition_at_def split: if_splits list.splits)

lemma partition_at_Some: "partition_at c s = (k, Some v) \<Longrightarrow> s = k @ c # v"
  by (induction s arbitrary: k) (auto simp: partition_at_def split: if_splits list.splits)


lemma unparse_parse_param: "unparse_param (parse_param s) = s"
proof (cases "parse_param s")
  case (Pair k v)
  then show ?thesis
    by (cases v) (auto simp: parse_param_def dest: partition_at_None partition_at_Some)
qed

lemma parse_unparse_param:
  "CHR ''='' \<notin> set (fst p) \<Longrightarrow> parse_param (unparse_param p) = p"
proof (cases p)
  case (Pair k v)
  assume "CHR ''='' \<notin> set (fst p)"
  with Pair show ?thesis
    by (cases v) (simp_all add: parse_param_def partition_at_no_sep partition_at_sep)
qed

lemma parse_param_key: "CHR ''='' \<notin> set (fst (parse_param s))"
  by (simp add: parse_param_def partition_at_fst)

lemma unparse_param_no_amp: "wf_param p \<Longrightarrow> CHR ''&'' \<notin> set (unparse_param p)"
  by (cases p; cases "snd p") (auto simp: wf_param_def)

lemma parse_param_wf: "CHR ''&'' \<notin> set s \<Longrightarrow> wf_param (parse_param s)"
proof (cases "parse_param s")
  case (Pair k v)
  assume amp: "CHR ''&'' \<notin> set s"
  have key: "CHR ''='' \<notin> set k"
    using parse_param_key [of s] Pair by simp
  show ?thesis
  proof (cases v)
    case None
    with Pair have "s = k" by (auto simp: parse_param_def dest: partition_at_None)
    with amp key Pair None show ?thesis by (simp add: wf_param_def)
  next
    case (Some w)
    with Pair have "s = k @ CHR ''='' # w" by (auto simp: parse_param_def dest: partition_at_Some)
    with amp key Pair Some show ?thesis by (simp add: wf_param_def)
  qed
qed

lemma unparse_parse_url: "unparse_url (parse_url url) = url"
proof (cases "partition_at CHR ''?'' url")
  case (Pair base q)
  show ?thesis
  proof (cases q)
    case None
    with Pair show ?thesis by (auto simp: parse_url_def dest: partition_at_None)
  next
    case (Some query)
    obtain w ws where sp: "split_on CHR ''&'' query = w # ws"
      using split_on_not_Nil [of "CHR ''&''" query] by (cases "split_on CHR ''&'' query") auto
    have "map unparse_param (map parse_param (split_on CHR ''&'' query)) = split_on CHR ''&'' query"
      by (simp add: unparse_parse_param comp_def)
    then have "join CHR ''&'' (map unparse_param (map parse_param (w # ws))) = query"
      using join_split_on [of "CHR ''&''" query] sp by simp
    moreover from Pair Some have "url = base @ CHR ''?'' # query" by (auto dest: partition_at_Some)
    ultimately show ?thesis using Pair Some sp by (simp add: parse_url_def)
  qed
qed

lemma parse_unparse_url:
  assumes base: "CHR ''?'' \<notin> set base" and ps: "\<forall>p \<in> set ps. wf_param p"
  shows "parse_url (unparse_url (base, ps)) = (base, ps)"
proof (cases ps)
  case Nil
  with base show ?thesis by (simp add: parse_url_def partition_at_no_sep)
next
  case (Cons p qs)
  have "\<forall>w \<in> set (map unparse_param ps). CHR ''&'' \<notin> set w"
    using ps by (auto simp: unparse_param_no_amp)
  then have "split_on CHR ''&'' (join CHR ''&'' (map unparse_param ps)) = map unparse_param ps"
    using Cons by (intro split_on_join) auto
  moreover have "map parse_param (map unparse_param ps) = ps"
    using ps by (auto simp: map_idI parse_unparse_param wf_param_def)
  ultimately show ?thesis
    using Cons base by (simp add: parse_url_def partition_at_sep)
qed

lemma parse_url_base: "CHR ''?'' \<notin> set (fst (parse_url url))"
  using partition_at_fst [of "CHR ''?''" url]
  by (cases "partition_at CHR ''?'' url") (auto simp: parse_url_def split: option.splits)

lemma parse_url_wf: "p \<in> set (snd (parse_url url)) \<Longrightarrow> wf_param p"
  by (cases "partition_at CHR ''?'' url")
     (auto simp: parse_url_def split: option.splits dest!: split_on_parts intro: parse_param_wf)


subsection \<open>Numerals\<close>

lemma digit_char_digit: "d < 10 \<Longrightarrow> digit_char d \<in> set ''0123456789''"
  unfolding digit_char_def by (rule nth_mem) simp

lemma str_nat_digits: "set (str_nat n) \<subseteq> set ''0123456789''"
proof (induction n rule: str_nat.induct)
  case (1 n)
  show ?case
  proof (cases "n < 10")
    case True
    then show ?thesis
      using digit_char_digit [of n] by (subst str_nat.simps) simp
  next
    case False
    have "n mod 10 < 10" by simp
    then have "digit_char (n mod 10) \<in> set ''0123456789''" by (rule digit_char_digit)
    with False "1.IH" show ?thesis by (subst str_nat.simps) simp
  qed
qed

lemma str_nat_no_amp: "CHR ''&'' \<notin> set (str_nat n)"
proof -
  have "CHR ''&'' \<notin> set ''0123456789''" by simp
  with str_nat_digits [of n] show ?thesis by blast
qed

lemma str_int_no_amp: "CHR ''&'' \<notin> set (str_int i)"
  by (simp add: str_int_def str_nat_no_amp)

lemma str_int_3: "str_int 3 = ''3''"
  by code_simp

subsection \<open>The parameters after a replacement\<close>

lemma parse_url_query:
  "CHR ''?'' \<notin> set base \<Longrightarrow>
   parse_url (base @ CHR ''?'' # query) = (base, map parse_param (split_on CHR ''&'' query))"
  by (simp add: parse_url_def partition_at_sep)

lemma parse_url_no_query: "CHR ''?'' \<notin> set url \<Longrightarrow> parse_url url = (url, [])"
  by (simp add: parse_url_def partition_at_no_sep)

lemma params_example:
  "map parse_param (split_on CHR ''&'' ''page=1&sort=name'') =
     [(''page'', Some ''1''), (''sort'', Some ''name'')]"
  by code_simp

lemma set_param_wf:
  assumes "\<forall>p \<in> set ps. wf_param p" and "wf_param (key, Some val)"
  shows "\<forall>p \<in> set (set_param key val ps). wf_param p"
  using assms by (auto simp: set_param_def wf_param_def split: if_splits)

lemma parse_replace_query_param:
  assumes "CHR ''='' \<notin> set key" and "CHR ''&'' \<notin> set key"
  shows "parse_url (replace_query_param url key val) =
         (fst (parse_url url), set_param key (str_int val) (snd (parse_url url)))"
proof -
  have "wf_param (key, Some (str_int val))"
    using assms by (simp add: wf_param_def str_int_no_amp)
  then have "\<forall>p \<in> set (set_param key (str_int val) (snd (parse_url url))). wf_param p"
    by (intro set_param_wf) (auto intro: parse_url_wf)
  then show ?thesis
    by (simp add: replace_query_param_def split_beta parse_unparse_url parse_url_base)
qed

lemma set_param_same:
  assumes "key \<in> fst ` set ps" and "\<forall>v. (key, v) \<in> set ps \<longrightarrow> v = Some val"
  shows "set_param key val ps = ps"
proof -
  have "map (\<lambda>(k, v). if k = key then (k, Some val) else (k, v)) ps = ps"
    using assms(2) by (intro map_idI) auto
  with assms(1) show ?thesis by (simp add: set_param_def)
qed

lemma replace_query_param_no_query:
  assumes "CHR ''?'' \<notin> set url"
  shows "replace_query_param url key val = url @ ''?'' @ key @ ''='' @ str_int val"
  using assms
  by (simp add: replace_query_param_def parse_url_def partition_at_no_sep set_param_def)

lemma filter_set_param:
  "filter (\<lambda>p. fst p \<noteq> key) (set_param key val ps) = filter (\<lambda>p. fst p \<noteq> key) ps"
proof -
  have "filter (\<lambda>p. fst p \<noteq> key) (map (\<lambda>(k, v). if k = key then (k, Some val) else (k, v)) ps)
        = filter (\<lambda>p. fst p \<noteq> key) ps"
    by (induction ps) (auto split: if_splits)
  then show ?thesis by (simp add: set_param_def)
qed

lemma set_param_values:
  assumes "(key, v) \<in> set (set_param key val ps)"
  shows "v = Some val"
proof (cases "key \<in> fst ` set ps")
  case True
  with assms show ?thesis by (auto simp: set_param_def split: if_splits)
next
  case False
  then have "(key, v) \<notin> set ps" by force
  with assms False show ?thesis by (simp add: set_param_def)
qed

lemma set_param_present: "key \<in> fst ` set (set_param key val ps)"
proof (cases "key \<in> fst ` set ps")
  case True
  then obtain v where "(key, v) \<in> set ps" by auto
  then have "(key, Some val) \<in> set (map (\<lambda>(k, v). if k = key then (k, Some val) else (k, v)) ps)"
    by force
  with True show ?thesis by (force simp: set_param_def)
next
  case False
  then show ?thesis by (simp add: set_param_def)
qed

lemma set_param_keys:
  "map fst (set_param key val ps) =
     (if key \<in> fst ` set ps then map fst ps else map fst ps @ [key])"
proof -
  have "map fst (map (\<lambda>(k, v). if k = key then (k, Some val) else (k, v)) ps) = map fst ps"
    by (induction ps) auto
  then show ?thesis by (simp add: set_param_def)
qed

lemma set_param_example:
  "set_param ''page'' ''3'' [(''page'', Some ''1''), (''sort'', Some ''name'')] =
     [(''page'', Some ''3''), (''sort'', Some ''name'')]"
  by code_simp

lemma replace_query_param_example:
  assumes "CHR ''?'' \<notin> set url"
  shows "replace_query_param (url @ ''?page=1&sort=name'') ''page'' 3 = url @ ''?page=3&sort=name''"
proof -
  have "parse_url (url @ CHR ''?'' # ''page=1&sort=name'') =
        (url, [(''page'', Some ''1''), (''sort'', Some ''name'')])"
    using parse_url_query [OF assms, of "''page=1&sort=name''"] by (simp only: params_example)
  then show ?thesis
    by (simp add: replace_query_param_def set_param_example str_int_3)
qed

subsection \<open>Evaluating \<open>build_link\<close> and \<open>get_paginated_response\<close>\<close>

lemma request_url_simp:
  "(case req of None \<Rightarrow> [] | Some r \<Rightarrow> if build_absolute_uri r \<noteq> [] then build_absolute_uri r else [])
   = (case req of None \<Rightarrow> [] | Some r \<Rightarrow> build_absolute_uri r)"
  by (simp split: option.splits)

lemma build_link_None: "build_link self None = None"
  by (simp add: build_link_def)

lemma build_link_zero: "build_link self (Some 0) = None"
  by (simp add: build_link_def)

lemma build_link_Some:
  "i \<noteq> 0 \<Longrightarrow>
   build_link self (Some i) =
     Some (replace_query_param (case request self of None \<Rightarrow> [] | Some r \<Rightarrow> build_absolute_uri r) ''page'' i)"
  by (simp add: build_link_def request_url_simp)

text \<open>
  When \<open>get_paginated_response\<close> returns, neither accessor it called has raised, and
  the dictionary is the one of the source.
\<close>

lemma get_paginated_response_Inr:
  assumes "get_paginated_response self data = Inr env"
  shows "env = \<lparr>results = data,
                  meta = [(''pagination'',
                           [(''page'', number (page self)),
                            (''pages'', num_pages (paginator (page self))),
                            (''count'', paginator.count (paginator (page self)))])],
                  links = [(''first'', build_link self (Some 1)),
                           (''last'', build_link self (Some (num_pages (paginator (page self))))),
                           (''next'', build_link self
                              (if has_next (page self)
                               then Some (projr (next_page_number (page self))) else None)),
                           (''prev'', build_link self
                              (if has_previous (page self)
                               then Some (projr (previous_page_number (page self))) else None))]\<rparr>"
    and "has_next (page self) \<Longrightarrow> next_page_number (page self) = Inr (projr (next_page_number (page self)))"
    and "has_previous (page self) \<Longrightarrow>
           previous_page_number (page self) = Inr (projr (previous_page_number (page self)))"
  using assms unfolding get_paginated_response_def
  by (auto split: if_splits sum.splits)

lemma example_no_query: "CHR ''?'' \<notin> set ''https://api.example.com/things''"
  by simp

lemma str_int_1: "str_int 1 = ''1''"
  by code_simp

lemma str_int_5: "str_int 5 = ''5''"
  by code_simp

lemma replace_query_param_empty:
  "replace_query_param [] ''page'' i = ''?page='' @ str_int i"
  using replace_query_param_no_query [of "[]" "''page''" i] by simp

lemma example_response:
  "get_paginated_response example_self data = Inr (example_envelope data)"
  by (simp add: get_paginated_response_def example_self_def example_page_def example_request_def
      example_envelope_def build_link_def replace_query_param_no_query [OF example_no_query]
      str_int_1 str_int_3 str_int_5)

lemma empty_response:
  "get_paginated_response empty_self data = Inr (empty_envelope data)"
  by (simp add: get_paginated_response_def empty_self_def empty_page_def
      empty_envelope_def build_link_def replace_query_param_empty str_int_1)

lemma single_response:
  "get_paginated_response single_self data = Inr (single_envelope data)"
  by (simp add: get_paginated_response_def single_self_def single_page_def
      single_envelope_def build_link_def replace_query_param_empty str_int_1)

subsection \<open>The envelope\<close>

text \<open>
  C4: for every page and every data, the envelope that \<open>get_paginated_response\<close>
  returns holds the data unchanged under \<open>results\<close>, and its \<open>meta\<close> is the one
  section \<open>pagination\<close> with \<open>page\<close> the number of the page, \<open>pages\<close> the
  paginator's \<open>num_pages\<close> and \<open>count\<close> the paginator's \<open>count\<close>, in this order.
\<close>

theorem get_paginated_response_results_meta:
  assumes "get_paginated_response self data = Inr env"
  shows "results env = data \<and>
         meta env = [(''pagination'',
                      [(''page'', number (page self)),
                       (''pages'', num_pages (paginator (page self))),
                       (''count'', paginator.count (paginator (page self)))])]"
  by (subst get_paginated_response_Inr(1) [OF assms], simp)+

theorem get_paginated_response_results_meta_witness:
  "get_paginated_response example_self [''a'', ''b''] = Inr (example_envelope [''a'', ''b'']) \<and>
   results (example_envelope [''a'', ''b'']) = [''a'', ''b''] \<and>
   meta (example_envelope [''a'', ''b'']) =
     [(''pagination'', [(''page'', 2), (''pages'', 5), (''count'', 98)])]"
proof -
  have h: "get_paginated_response example_self [''a'', ''b''] = Inr (example_envelope [''a'', ''b''])"
    by (rule example_response)
  show ?thesis
    using h get_paginated_response_results_meta [OF h]
    by (simp add: example_self_def example_page_def)
qed

text \<open>
  C1: on every page whose accessors return where the page has the neighbour,
  \<open>get_paginated_response\<close> returns an envelope, and in it the entry \<open>next\<close> of
  \<open>links\<close> is null when \<open>has_next()\<close> is false and is \<open>build_link\<close> of
  \<open>next_page_number()\<close> otherwise; the entry \<open>prev\<close> is null when
  \<open>has_previous()\<close> is false and is \<open>build_link\<close> of \<open>previous_page_number()\<close>
  otherwise. On the other pages the accessor's exception ends the call and there is no
  envelope.
\<close>

theorem get_paginated_response_next_prev:
  assumes "has_next (page self) \<longrightarrow> next_page_number (page self) = Inr n"
    and "has_previous (page self) \<longrightarrow> previous_page_number (page self) = Inr m"
  shows "\<exists>env. get_paginated_response self data = Inr env \<and>
           map_of (links env) ''next'' =
             Some (if has_next (page self) then build_link self (Some n) else None) \<and>
           map_of (links env) ''prev'' =
             Some (if has_previous (page self) then build_link self (Some m) else None)"
  using assms by (simp add: get_paginated_response_def build_link_None)

theorem get_paginated_response_next_prev_witness:
  "has_next (page example_self) \<and> next_page_number (page example_self) = Inr 3 \<and>
   has_previous (page example_self) \<and> previous_page_number (page example_self) = Inr 1 \<and>
   get_paginated_response example_self () = Inr (example_envelope ()) \<and>
   map_of (links (example_envelope ())) ''next'' = Some (build_link example_self (Some 3)) \<and>
   map_of (links (example_envelope ())) ''prev'' = Some (build_link example_self (Some 1)) \<and>
   build_link example_self (Some 3) = Some ''https://api.example.com/things?page=3'' \<and>
   build_link example_self (Some 1) = Some ''https://api.example.com/things?page=1'' \<and>
   \<not> has_next (page single_self) \<and> \<not> has_previous (page single_self) \<and>
   get_paginated_response single_self () = Inr (single_envelope ()) \<and>
   map_of (links (single_envelope ())) ''next'' = Some None \<and>
   map_of (links (single_envelope ())) ''prev'' = Some None"
proof -
  have e: "has_next (page example_self)" "next_page_number (page example_self) = Inr 3"
    "has_previous (page example_self)" "previous_page_number (page example_self) = Inr 1"
    by (simp_all add: example_self_def example_page_def)
  have s: "\<not> has_next (page single_self)" "\<not> has_previous (page single_self)"
    by (simp_all add: single_self_def single_page_def)
  have b: "build_link example_self (Some 3) = Some ''https://api.example.com/things?page=3''"
    "build_link example_self (Some 1) = Some ''https://api.example.com/things?page=1''"
    by (simp_all add: build_link_Some example_self_def example_request_def
        replace_query_param_no_query [OF example_no_query] str_int_1 str_int_3)
  have "has_next (page example_self) \<longrightarrow> next_page_number (page example_self) = Inr 3"
    and "has_previous (page example_self) \<longrightarrow> previous_page_number (page example_self) = Inr 1"
    by (simp_all add: e)
  from get_paginated_response_next_prev [OF this, of "()"]
  have 1: "map_of (links (example_envelope ())) ''next'' = Some (build_link example_self (Some 3))"
    and 2: "map_of (links (example_envelope ())) ''prev'' = Some (build_link example_self (Some 1))"
    by (simp_all add: example_response e)
  have "has_next (page single_self) \<longrightarrow> next_page_number (page single_self) = Inr 0"
    and "has_previous (page single_self) \<longrightarrow> previous_page_number (page single_self) = Inr 0"
    by (simp_all add: s)
  from get_paginated_response_next_prev [OF this, of "()"]
  have 3: "map_of (links (single_envelope ())) ''next'' = Some None"
    and 4: "map_of (links (single_envelope ())) ''prev'' = Some None"
    by (simp_all add: single_response s)
  from e s b 1 2 3 4 example_response [of "()"] single_response [of "()"] show ?thesis
    by simp
qed

text \<open>
  C2: \<open>build_link\<close> returns null for a null index; and for a page whose paginator
  has \<open>num_pages = 0\<close>, the entry \<open>last\<close> of the links of the envelope is null, the
  index \<open>0\<close> being false in \<open>not index\<close>.
\<close>

theorem build_link_null_index:
  assumes "get_paginated_response self data = Inr env"
    and "num_pages (paginator (page self)) = 0"
  shows "build_link self' None = None \<and> map_of (links env) ''last'' = Some None"
  using assms(2)
  by (subst get_paginated_response_Inr(1) [OF assms(1)]) (simp add: build_link_None build_link_zero)

theorem build_link_null_index_witness:
  "get_paginated_response empty_self () = Inr (empty_envelope ()) \<and>
   num_pages (paginator (page empty_self)) = 0 \<and>
   build_link example_self None = None \<and>
   map_of (links (empty_envelope ())) ''last'' = Some None"
proof -
  have h: "get_paginated_response empty_self () = Inr (empty_envelope ())"
    by (rule empty_response)
  have z: "num_pages (paginator (page empty_self)) = 0"
    by (simp add: empty_self_def empty_page_def)
  show ?thesis
    using h z build_link_null_index [OF h z, of example_self] by simp
qed

text \<open>
  C3: in the envelope that \<open>get_paginated_response\<close> returns, the entry \<open>first\<close> of
  \<open>links\<close> is \<open>build_link(1)\<close>, which is not null when \<open>num_pages\<close> is at least 1.
\<close>

theorem links_first:
  assumes "get_paginated_response self data = Inr env"
  shows "map_of (links env) ''first'' = Some (build_link self (Some 1)) \<and>
         (1 \<le> num_pages (paginator (page self)) \<longrightarrow> build_link self (Some 1) \<noteq> None)"
  by (subst get_paginated_response_Inr(1) [OF assms]) (simp add: build_link_Some)

theorem links_first_witness:
  "get_paginated_response example_self () = Inr (example_envelope ()) \<and>
   1 \<le> num_pages (paginator (page example_self)) \<and>
   map_of (links (example_envelope ())) ''first'' = Some (build_link example_self (Some 1)) \<and>
   build_link example_self (Some 1) \<noteq> None"
proof -
  have h: "get_paginated_response example_self () = Inr (example_envelope ())"
    by (rule example_response)
  have n: "1 \<le> num_pages (paginator (page example_self))"
    by (simp add: example_self_def example_page_def)
  show ?thesis
    using h n links_first [OF h] by simp
qed

text \<open>
  C10: for every page, also one whose paginator has \<open>num_pages = 0\<close>, the entry
  \<open>first\<close> of the links of the envelope is \<open>build_link\<close> of the literal index
  \<open>1\<close>, which is never null, \<open>1\<close> never being false in \<open>not index\<close>; with no
  request it is the relative \<open>?page=1\<close>.
\<close>

theorem links_first_never_null:
  assumes "get_paginated_response self data = Inr env"
  shows "map_of (links env) ''first'' = Some (build_link self (Some 1)) \<and>
         (\<exists>link. build_link self (Some 1) = Some link) \<and>
         (request self = None \<longrightarrow> map_of (links env) ''first'' = Some (Some ''?page=1''))"
  by (subst (1 2) get_paginated_response_Inr(1) [OF assms])
     (simp add: build_link_Some replace_query_param_empty str_int_1)

theorem links_first_never_null_witness:
  "get_paginated_response empty_self () = Inr (empty_envelope ()) \<and>
   num_pages (paginator (page empty_self)) = 0 \<and>
   request empty_self = None \<and>
   map_of (links (empty_envelope ())) ''first'' = Some (build_link empty_self (Some 1)) \<and>
   map_of (links (empty_envelope ())) ''first'' = Some (Some ''?page=1'') \<and>
   get_paginated_response example_self () = Inr (example_envelope ()) \<and>
   request example_self = Some example_request \<and>
   map_of (links (example_envelope ())) ''first'' = Some (build_link example_self (Some 1)) \<and>
   build_link example_self (Some 1) = Some ''https://api.example.com/things?page=1''"
proof -
  have h: "get_paginated_response empty_self () = Inr (empty_envelope ())"
    by (rule empty_response)
  have r: "request empty_self = None" "num_pages (paginator (page empty_self)) = 0"
    by (simp_all add: empty_self_def empty_page_def)
  have g: "get_paginated_response example_self () = Inr (example_envelope ())"
    by (rule example_response)
  have q: "request example_self = Some example_request"
    by (simp add: example_self_def)
  have b: "build_link example_self (Some 1) = Some ''https://api.example.com/things?page=1''"
    by (simp add: build_link_Some example_self_def example_request_def
        replace_query_param_no_query [OF example_no_query] str_int_1)
  from links_first_never_null [OF h] r
  have 1: "map_of (links (empty_envelope ())) ''first'' = Some (build_link empty_self (Some 1))"
    and 2: "map_of (links (empty_envelope ())) ''first'' = Some (Some ''?page=1'')"
    by blast+
  from links_first_never_null [OF g]
  have 3: "map_of (links (example_envelope ())) ''first'' = Some (build_link example_self (Some 1))"
    by blast
  from h r g q b 1 2 3 show ?thesis
    by blast
qed

subsection \<open>The serializer fields and the envelope\<close>

lemma NextPageLinkField_eval:
  "NextPageLinkField_to_representation field value =
     (if \<not> has_next value then Inr None
      else case next_page_number value of
        Inl e \<Rightarrow> Inl e
      | Inr n \<Rightarrow> Inr (Some (replace_query_param
          (case context field ''request'' of None \<Rightarrow> [] | Some r \<Rightarrow> build_absolute_uri r) ''page'' n)))"
  by (simp add: NextPageLinkField_to_representation_def page_field_def request_url_simp Let_def
      split: sum.splits)

lemma PreviousPageLinkField_eval:
  "PreviousPageLinkField_to_representation field value =
     (if \<not> has_previous value then Inr None
      else case previous_page_number value of
        Inl e \<Rightarrow> Inl e
      | Inr n \<Rightarrow> Inr (Some (replace_query_param
          (case context field ''request'' of None \<Rightarrow> [] | Some r \<Rightarrow> build_absolute_uri r) ''page'' n)))"
  by (simp add: PreviousPageLinkField_to_representation_def page_field_def request_url_simp Let_def
      split: sum.splits)

lemma NextPageField_eval:
  "NextPageField_to_representation field value =
     (if has_next value then map_sum id Some (next_page_number value) else Inr None)"
  by (simp add: NextPageField_to_representation_def split: sum.splits)

lemma PreviousPageField_eval:
  "PreviousPageField_to_representation field value =
     (if has_previous value then map_sum id Some (previous_page_number value) else Inr None)"
  by (simp add: PreviousPageField_to_representation_def split: sum.splits)

lemma PaginationSerializer_Inr:
  assumes "has_next v \<Longrightarrow> next_page_number v = Inr n"
    and "has_previous v \<Longrightarrow> previous_page_number v = Inr m"
  shows "PaginationSerializer ctx v =
     Inr \<lparr>next = (if has_next v then Some n else None),
          next_link = (if has_next v
                       then Some (replace_query_param
                         (case ctx ''request'' of None \<Rightarrow> [] | Some r \<Rightarrow> build_absolute_uri r) ''page'' n)
                       else None),
          pagination_data.page = number v,
          previous = (if has_previous v then Some m else None),
          previous_link = (if has_previous v
                       then Some (replace_query_param
                         (case ctx ''request'' of None \<Rightarrow> [] | Some r \<Rightarrow> build_absolute_uri r) ''page'' m)
                       else None),
          pagination_data.count = paginator.count (paginator v),
          total = num_pages (paginator v)\<rparr>"
  using assms
  by (simp add: PaginationSerializer_def Let_def NextPageField_eval PreviousPageField_eval
      NextPageLinkField_eval PreviousPageLinkField_eval PageField_to_representation_def)

lemma example_serialized: "PaginationSerializer example_context example_page = Inr example_data"
proof -
  have "has_next example_page \<Longrightarrow> next_page_number example_page = Inr 3"
    and "has_previous example_page \<Longrightarrow> previous_page_number example_page = Inr 1"
    by (simp_all add: example_page_def)
  from PaginationSerializer_Inr [OF this, of example_context] show ?thesis
    by (simp add: example_page_def example_data_def example_context_def example_request_def
        replace_query_param_no_query [OF example_no_query] str_int_1 str_int_3)
qed

lemma str_int_0: "str_int 0 = ''0''"
  by code_simp

lemma zero_request_params:
  "parse_url ''https://api.example.com/things?page=0'' =
     (''https://api.example.com/things'', [(''page'', Some ''0'')])"
proof -
  have h: "map parse_param (split_on CHR ''&'' ''page=0'') = [(''page'', Some ''0'')]"
    by code_simp
  from parse_url_query [OF example_no_query, of "''page=0''"] show ?thesis
    by (simp only: h append_Cons append_Nil)
qed

lemma three_params:
  "parse_url ''https://api.example.com/things?sort=name&page=3'' =
     (''https://api.example.com/things'', [(''sort'', Some ''name''), (''page'', Some ''3'')])"
proof -
  have h: "map parse_param (split_on CHR ''&'' ''sort=name&page=3'') =
          [(''sort'', Some ''name''), (''page'', Some ''3'')]"
    by code_simp
  from parse_url_query [OF example_no_query, of "''sort=name&page=3''"] show ?thesis
    by (simp only: h append_Cons append_Nil)
qed

lemma twice_params:
  "parse_url ''https://api.example.com/things?page=3&page=4'' =
     (''https://api.example.com/things'', [(''page'', Some ''3''), (''page'', Some ''4'')])"
proof -
  have h: "map parse_param (split_on CHR ''&'' ''page=3&page=4'') =
          [(''page'', Some ''3''), (''page'', Some ''4'')]"
    by code_simp
  from parse_url_query [OF example_no_query, of "''page=3&page=4''"] show ?thesis
    by (simp only: h append_Cons append_Nil)
qed

lemma filter_key_single:
  assumes "filter (\<lambda>q. fst q = k) ps = [(k, v)]"
  shows "k \<in> fst ` set ps" and "\<forall>w. (k, w) \<in> set ps \<longrightarrow> w = v"
proof -
  have s: "set (filter (\<lambda>q. fst q = k) ps) = {(k, v)}"
    by (simp add: assms)
  then have "(k, v) \<in> set ps"
    by auto
  then show "k \<in> fst ` set ps"
    by force
  show "\<forall>w. (k, w) \<in> set ps \<longrightarrow> w = v"
  proof (intro allI impI)
    fix w
    assume "(k, w) \<in> set ps"
    then have "(k, w) \<in> set (filter (\<lambda>q. fst q = k) ps)"
      by simp
    with s show "w = v"
      by simp
  qed
qed

text \<open>
  C5: with no request, nothing fails for want of it: the URL is the empty string, so
  \<open>build_link\<close> returns null or the relative \<open>?page=N\<close>, every link of the envelope
  is null or of that form, and each of the two link fields returns null where the page
  has no such neighbour and \<open>?page=N\<close> for the neighbour \<open>N\<close> that the page reports.
\<close>

theorem no_request_relative_links:
  assumes "request self = None" and "context field ''request'' = None"
  shows "(build_link self index = None \<or>
            (\<exists>n. build_link self index = Some (''?page='' @ str_int n))) \<and>
         (\<forall>env. get_paginated_response self data = Inr env \<longrightarrow>
            (\<forall>l \<in> snd ` set (links env). l = None \<or> (\<exists>n. l = Some (''?page='' @ str_int n)))) \<and>
         (\<not> has_next value \<longrightarrow> NextPageLinkField_to_representation field value = Inr None) \<and>
         (\<forall>n. has_next value \<longrightarrow> next_page_number value = Inr n \<longrightarrow>
            NextPageLinkField_to_representation field value = Inr (Some (''?page='' @ str_int n))) \<and>
         (\<not> has_previous value \<longrightarrow> PreviousPageLinkField_to_representation field value = Inr None) \<and>
         (\<forall>n. has_previous value \<longrightarrow> previous_page_number value = Inr n \<longrightarrow>
            PreviousPageLinkField_to_representation field value = Inr (Some (''?page='' @ str_int n)))"
proof -
  have link: "build_link self i = None \<or> (\<exists>n. build_link self i = Some (''?page='' @ str_int n))" for i
  proof (cases i)
    case None
    then show ?thesis by (simp add: build_link_None)
  next
    case (Some k)
    show ?thesis
    proof (cases "k = 0")
      case True
      with Some show ?thesis by (simp add: build_link_zero)
    next
      case False
      with Some assms(1) have "build_link self i = Some (''?page='' @ str_int k)"
        by (simp add: build_link_Some replace_query_param_empty)
      then show ?thesis by blast
    qed
  qed
  have env: "\<forall>l \<in> snd ` set (links env). l = None \<or> (\<exists>n. l = Some (''?page='' @ str_int n))"
    if "get_paginated_response self data = Inr env" for env
  proof -
    define nxt where
      "nxt = (if has_next (page self) then Some (projr (next_page_number (page self))) else None)"
    define prv where
      "prv = (if has_previous (page self)
              then Some (projr (previous_page_number (page self))) else None)"
    have "links env = [(''first'', build_link self (Some 1)),
                       (''last'', build_link self (Some (num_pages (paginator (page self))))),
                       (''next'', build_link self nxt),
                       (''prev'', build_link self prv)]"
      by (subst get_paginated_response_Inr(1) [OF that]) (simp add: nxt_def prv_def)
    then show ?thesis
      using link [of "Some 1"] link [of "Some (num_pages (paginator (page self)))"]
        link [of nxt] link [of prv]
      by simp
  qed
  have fields:
    "\<not> has_next value \<longrightarrow> NextPageLinkField_to_representation field value = Inr None"
    "\<forall>n. has_next value \<longrightarrow> next_page_number value = Inr n \<longrightarrow>
       NextPageLinkField_to_representation field value = Inr (Some (''?page='' @ str_int n))"
    "\<not> has_previous value \<longrightarrow> PreviousPageLinkField_to_representation field value = Inr None"
    "\<forall>n. has_previous value \<longrightarrow> previous_page_number value = Inr n \<longrightarrow>
       PreviousPageLinkField_to_representation field value = Inr (Some (''?page='' @ str_int n))"
    using assms(2)
    by (simp_all add: NextPageLinkField_eval PreviousPageLinkField_eval replace_query_param_empty)
  from link [of index] env fields show ?thesis by blast
qed

theorem no_request_relative_links_witness:
  "request single_self = None \<and> context no_request_field ''request'' = None \<and>
   build_link single_self (Some 3) = Some ''?page=3'' \<and>
   get_paginated_response single_self () = Inr (single_envelope ()) \<and>
   snd ` set (links (single_envelope ())) = {Some ''?page=1'', None} \<and>
   has_next example_page \<and> next_page_number example_page = Inr 3 \<and>
   NextPageLinkField_to_representation no_request_field example_page = Inr (Some ''?page=3'') \<and>
   has_previous example_page \<and> previous_page_number example_page = Inr 1 \<and>
   PreviousPageLinkField_to_representation no_request_field example_page = Inr (Some ''?page=1'')"
proof -
  have r: "request single_self = None" and c: "context no_request_field ''request'' = None"
    by (simp_all add: single_self_def no_request_field_def)
  have p: "has_next example_page" "next_page_number example_page = Inr 3"
    "has_previous example_page" "previous_page_number example_page = Inr 1"
    by (simp_all add: example_page_def)
  have l: "snd ` set (links (single_envelope ())) = {Some ''?page=1'', None}"
    by (simp add: single_envelope_def)
  have b: "build_link single_self (Some 3) = Some ''?page=3''"
    using r by (simp add: build_link_Some replace_query_param_empty str_int_3)
  show ?thesis
    using r c p l b single_response [of "()"]
      no_request_relative_links [OF r c, of "Some 3" "()" example_page]
    by (simp add: str_int_1 str_int_3)
qed

text \<open>
  C9: when \<open>next_page_number()\<close> is defined exactly on the pages with \<open>has_next()\<close>
  and \<open>previous_page_number()\<close> exactly on those with \<open>has_previous()\<close>, no operation
  of the module raises: each one calls an accessor only behind its test, since a call
  of an undefined accessor would end the operation with its exception.
\<close>

theorem accessors_guarded:
  assumes "has_next (page self) \<longleftrightarrow> \<not> isl (next_page_number (page self))"
    and "has_previous (page self) \<longleftrightarrow> \<not> isl (previous_page_number (page self))"
  shows "\<not> isl (get_paginated_response self data) \<and>
         \<not> isl (NextPageLinkField_to_representation field (page self)) \<and>
         \<not> isl (NextPageField_to_representation field (page self)) \<and>
         \<not> isl (PreviousPageLinkField_to_representation field (page self)) \<and>
         \<not> isl (PreviousPageField_to_representation field (page self)) \<and>
         \<not> isl (PaginationSerializer ctx (page self))"
proof -
  have n: "has_next (page self) \<Longrightarrow> \<exists>n. next_page_number (page self) = Inr n"
    using assms(1) by (cases "next_page_number (page self)") auto
  have p: "has_previous (page self) \<Longrightarrow> \<exists>n. previous_page_number (page self) = Inr n"
    using assms(2) by (cases "previous_page_number (page self)") auto
  have 1: "\<not> isl (get_paginated_response self data)"
    using n p by (auto simp: get_paginated_response_def)
  have 2: "\<not> isl (NextPageLinkField_to_representation f (page self))" for f
    using n by (auto simp: NextPageLinkField_eval)
  have 3: "\<not> isl (NextPageField_to_representation f (page self))" for f
    using n by (auto simp: NextPageField_eval)
  have 4: "\<not> isl (PreviousPageLinkField_to_representation f (page self))" for f
    using p by (auto simp: PreviousPageLinkField_eval)
  have 5: "\<not> isl (PreviousPageField_to_representation f (page self))" for f
    using p by (auto simp: PreviousPageField_eval)
  have 6: "\<not> isl (PaginationSerializer ctx (page self))"
    using 2 [of "\<lparr>context = ctx\<rparr>"] 3 [of "\<lparr>context = ctx\<rparr>"]
      4 [of "\<lparr>context = ctx\<rparr>"] 5 [of "\<lparr>context = ctx\<rparr>"]
    by (auto simp: PaginationSerializer_def Let_def split: sum.splits)
  from 1 2 3 4 5 6 show ?thesis by blast
qed

theorem accessors_guarded_witness:
  "has_next (page single_self) = (\<not> isl (next_page_number (page single_self))) \<and>
   has_previous (page single_self) = (\<not> isl (previous_page_number (page single_self))) \<and>
   isl (next_page_number (page single_self)) \<and>
   isl (previous_page_number (page single_self)) \<and>
   \<not> isl (get_paginated_response single_self ()) \<and>
   \<not> isl (NextPageLinkField_to_representation no_request_field (page single_self)) \<and>
   \<not> isl (NextPageField_to_representation no_request_field (page single_self)) \<and>
   \<not> isl (PreviousPageLinkField_to_representation no_request_field (page single_self)) \<and>
   \<not> isl (PreviousPageField_to_representation no_request_field (page single_self)) \<and>
   \<not> isl (PaginationSerializer example_context (page single_self))"
proof -
  have n: "has_next (page single_self) = (\<not> isl (next_page_number (page single_self)))"
    and p: "has_previous (page single_self) = (\<not> isl (previous_page_number (page single_self)))"
    and u: "isl (next_page_number (page single_self))" "isl (previous_page_number (page single_self))"
    by (simp_all add: single_self_def single_page_def)
  show ?thesis
    using n p u accessors_guarded [OF n p, of "()" no_request_field example_context]
    by simp
qed

text \<open>
  C8: on every page of the spec's data model, whose page numbers are 1-based and whose
  accessors return where the page has the neighbour, and with the one request at both
  places where the two formats look for it (\<open>self.request\<close> and the context of the
  serializer), \<open>get_paginated_response\<close> and \<open>PaginationSerializer\<close> both return and
  expose the same values: \<open>next\<close> and \<open>previous\<close> are the page numbers from which
  the envelope builds its links \<open>next\<close> and \<open>prev\<close>, \<open>next_link\<close> and
  \<open>previous_link\<close> are those links, and \<open>page\<close>, \<open>total\<close> and \<open>count\<close> are
  \<open>page\<close>, \<open>pages\<close> and \<open>count\<close> of \<open>meta.pagination\<close>.
\<close>

theorem PaginationSerializer_same_values:
  assumes ctx: "ctx ''request'' = request self"
    and nxt: "has_next (page self) \<longrightarrow> next_page_number (page self) = Inr n \<and> 1 \<le> n"
    and prv: "has_previous (page self) \<longrightarrow> previous_page_number (page self) = Inr m \<and> 1 \<le> m"
  shows "\<exists>env d. get_paginated_response self data = Inr env \<and>
           PaginationSerializer ctx (page self) = Inr d \<and>
           next d = (if has_next (page self) then Some n else None) \<and>
           previous d = (if has_previous (page self) then Some m else None) \<and>
           map_of (links env) ''next'' = Some (build_link self (next d)) \<and>
           map_of (links env) ''prev'' = Some (build_link self (previous d)) \<and>
           map_of (links env) ''next'' = Some (next_link d) \<and>
           map_of (links env) ''prev'' = Some (previous_link d) \<and>
           map_of (meta env) ''pagination'' =
             Some [(''page'', pagination_data.page d),
                   (''pages'', total d),
                   (''count'', pagination_data.count d)]"
proof -
  have n: "has_next (page self) \<Longrightarrow> next_page_number (page self) = Inr n"
    and m: "has_previous (page self) \<Longrightarrow> previous_page_number (page self) = Inr m"
    and n0: "has_next (page self) \<Longrightarrow> n \<noteq> 0"
    and m0: "has_previous (page self) \<Longrightarrow> m \<noteq> 0"
    using nxt prv by auto
  let ?env = "\<lparr>results = data,
                meta = [(''pagination'',
                         [(''page'', number (page self)),
                          (''pages'', num_pages (paginator (page self))),
                          (''count'', paginator.count (paginator (page self)))])],
                links = [(''first'', build_link self (Some 1)),
                         (''last'', build_link self (Some (num_pages (paginator (page self))))),
                         (''next'', build_link self (if has_next (page self) then Some n else None)),
                         (''prev'', build_link self
                            (if has_previous (page self) then Some m else None))]\<rparr>"
  let ?d = "\<lparr>next = (if has_next (page self) then Some n else None),
          next_link = (if has_next (page self)
                       then Some (replace_query_param
                         (case ctx ''request'' of None \<Rightarrow> [] | Some r \<Rightarrow> build_absolute_uri r) ''page'' n)
                       else None),
          pagination_data.page = number (page self),
          previous = (if has_previous (page self) then Some m else None),
          previous_link = (if has_previous (page self)
                       then Some (replace_query_param
                         (case ctx ''request'' of None \<Rightarrow> [] | Some r \<Rightarrow> build_absolute_uri r) ''page'' m)
                       else None),
          pagination_data.count = paginator.count (paginator (page self)),
          total = num_pages (paginator (page self))\<rparr>"
  have e: "get_paginated_response self data = Inr ?env"
    using n m by (simp add: get_paginated_response_def)
  have d: "PaginationSerializer ctx (page self) = Inr ?d"
    using n m by (rule PaginationSerializer_Inr)
  have "next ?d = (if has_next (page self) then Some n else None)"
    and "previous ?d = (if has_previous (page self) then Some m else None)"
    and "map_of (links ?env) ''next'' = Some (build_link self (next ?d))"
    and "map_of (links ?env) ''prev'' = Some (build_link self (previous ?d))"
    and "map_of (links ?env) ''next'' = Some (next_link ?d)"
    and "map_of (links ?env) ''prev'' = Some (previous_link ?d)"
    and "map_of (meta ?env) ''pagination'' =
           Some [(''page'', pagination_data.page ?d),
                 (''pages'', total ?d),
                 (''count'', pagination_data.count ?d)]"
    using n0 m0 by (simp_all add: build_link_None build_link_Some ctx)
  with e d show ?thesis
    by blast
qed

theorem PaginationSerializer_same_values_witness:
  "example_context ''request'' = request example_self \<and>
   has_next (page example_self) \<and> next_page_number (page example_self) = Inr 3 \<and>
   has_previous (page example_self) \<and> previous_page_number (page example_self) = Inr 1 \<and>
   get_paginated_response example_self () = Inr (example_envelope ()) \<and>
   PaginationSerializer example_context (page example_self) = Inr example_data \<and>
   next example_data = Some 3 \<and> previous example_data = Some 1 \<and>
   map_of (links (example_envelope ())) ''next'' = Some (build_link example_self (next example_data)) \<and>
   map_of (links (example_envelope ())) ''prev'' = Some (build_link example_self (previous example_data)) \<and>
   map_of (links (example_envelope ())) ''next'' = Some (next_link example_data) \<and>
   map_of (links (example_envelope ())) ''prev'' = Some (previous_link example_data) \<and>
   map_of (meta (example_envelope ())) ''pagination'' =
     Some [(''page'', pagination_data.page example_data),
           (''pages'', total example_data),
           (''count'', pagination_data.count example_data)]"
proof -
  have c: "example_context ''request'' = request example_self"
    by (simp add: example_context_def example_self_def)
  have p: "page example_self = example_page"
    by (simp add: example_self_def)
  have a: "has_next (page example_self)" "next_page_number (page example_self) = Inr 3"
    "has_previous (page example_self)" "previous_page_number (page example_self) = Inr 1"
    by (simp_all add: p example_page_def)
  have nz: "has_next (page example_self) \<longrightarrow>
              next_page_number (page example_self) = Inr 3 \<and> (1::int) \<le> 3"
    and pz: "has_previous (page example_self) \<longrightarrow>
              previous_page_number (page example_self) = Inr 1 \<and> (1::int) \<le> 1"
    by (simp_all add: a)
  from PaginationSerializer_same_values
    [of example_context example_self 3 1 "()", OF c nz pz]
  obtain env d where env: "get_paginated_response example_self () = Inr env"
    and d: "PaginationSerializer example_context (page example_self) = Inr d"
    and v: "next d = (if has_next (page example_self) then Some 3 else None)"
      "previous d = (if has_previous (page example_self) then Some 1 else None)"
      "map_of (links env) ''next'' = Some (build_link example_self (next d))"
      "map_of (links env) ''prev'' = Some (build_link example_self (previous d))"
      "map_of (links env) ''next'' = Some (next_link d)"
      "map_of (links env) ''prev'' = Some (previous_link d)"
      "map_of (meta env) ''pagination'' =
         Some [(''page'', pagination_data.page d),
               (''pages'', total d),
               (''count'', pagination_data.count d)]"
    by blast
  have env': "env = example_envelope ()"
    using env by (simp add: example_response)
  have d': "d = example_data"
    using d by (simp add: p example_serialized)
  have s: "PaginationSerializer example_context (page example_self) = Inr example_data"
    by (simp add: p example_serialized)
  from v a have "next example_data = Some 3" "previous example_data = Some 1"
    "map_of (links (example_envelope ())) ''next'' = Some (build_link example_self (next example_data))"
    "map_of (links (example_envelope ())) ''prev'' = Some (build_link example_self (previous example_data))"
    "map_of (links (example_envelope ())) ''next'' = Some (next_link example_data)"
    "map_of (links (example_envelope ())) ''prev'' = Some (previous_link example_data)"
    "map_of (meta (example_envelope ())) ''pagination'' =
       Some [(''page'', pagination_data.page example_data),
             (''pages'', total example_data),
             (''count'', pagination_data.count example_data)]"
    unfolding env' d' by simp_all
  with c a example_response [of "()"] s show ?thesis
    by blast
qed

subsection \<open>The parameter \<open>page\<close> of a link\<close>

text \<open>
  C7, as amended: for every index that is neither null nor \<open>0\<close>, \<open>build_link\<close>
  returns the URL of the request (the empty string when there is none) with its
  parameter \<open>page\<close> set: host and path are kept, the other parameters are kept in
  their order, a parameter \<open>page\<close> that is there keeps its place and takes the index
  as its value, one that is not is added at the end. A URL with no query string
  becomes \<open><url>?page=N\<close>, and \<open><url>?page=1&sort=name\<close> with the index 3 becomes
  \<open><url>?page=3&sort=name\<close>.
\<close>

theorem build_link_sets_page:
  assumes "i \<noteq> 0"
    and "url = (case request self of None \<Rightarrow> [] | Some r \<Rightarrow> build_absolute_uri r)"
  shows "\<exists>link. build_link self (Some i) = Some link \<and>
           fst (parse_url link) = fst (parse_url url) \<and>
           filter (\<lambda>p. fst p \<noteq> ''page'') (snd (parse_url link)) =
             filter (\<lambda>p. fst p \<noteq> ''page'') (snd (parse_url url)) \<and>
           map fst (snd (parse_url link)) =
             (if ''page'' \<in> fst ` set (snd (parse_url url))
              then map fst (snd (parse_url url))
              else map fst (snd (parse_url url)) @ [''page'']) \<and>
           (\<forall>v. (''page'', v) \<in> set (snd (parse_url link)) \<longrightarrow> v = Some (str_int i)) \<and>
           (CHR ''?'' \<notin> set url \<longrightarrow> link = url @ ''?page='' @ str_int i) \<and>
           (\<forall>u. CHR ''?'' \<notin> set u \<longrightarrow> url = u @ ''?page=1&sort=name'' \<longrightarrow> i = 3 \<longrightarrow>
              link = u @ ''?page=3&sort=name'')"
proof -
  let ?link = "replace_query_param url ''page'' i"
  have b: "build_link self (Some i) = Some ?link"
    using assms by (simp add: build_link_Some)
  have p: "parse_url ?link = (fst (parse_url url), set_param ''page'' (str_int i) (snd (parse_url url)))"
    by (rule parse_replace_query_param) simp_all
  have 1: "fst (parse_url ?link) = fst (parse_url url)"
    by (simp add: p)
  have 2: "filter (\<lambda>p. fst p \<noteq> ''page'') (snd (parse_url ?link)) =
             filter (\<lambda>p. fst p \<noteq> ''page'') (snd (parse_url url))"
    by (simp only: p snd_conv filter_set_param)
  have 3: "map fst (snd (parse_url ?link)) =
             (if ''page'' \<in> fst ` set (snd (parse_url url))
              then map fst (snd (parse_url url))
              else map fst (snd (parse_url url)) @ [''page''])"
    by (simp only: p snd_conv set_param_keys)
  have 4: "\<forall>v. (''page'', v) \<in> set (snd (parse_url ?link)) \<longrightarrow> v = Some (str_int i)"
    unfolding p snd_conv by (blast dest: set_param_values)
  have 5: "CHR ''?'' \<notin> set url \<longrightarrow> ?link = url @ ''?page='' @ str_int i"
    using replace_query_param_no_query [of url "''page''" i] by simp
  have 6: "\<forall>u. CHR ''?'' \<notin> set u \<longrightarrow> url = u @ ''?page=1&sort=name'' \<longrightarrow> i = 3 \<longrightarrow>
              ?link = u @ ''?page=3&sort=name''"
    using replace_query_param_example by blast
  from b 1 2 3 4 5 6 show ?thesis by blast
qed

theorem build_link_sets_page_witness:
  "(3::int) \<noteq> 0 \<and>
   ''https://api.example.com/things'' =
     (case request example_self of None \<Rightarrow> [] | Some r \<Rightarrow> build_absolute_uri r) \<and>
   build_link example_self (Some 3) = Some ''https://api.example.com/things?page=3''"
proof -
  have i: "(3::int) \<noteq> 0" by simp
  have u: "''https://api.example.com/things'' =
     (case request example_self of None \<Rightarrow> [] | Some r \<Rightarrow> build_absolute_uri r)"
    by (simp add: example_self_def example_request_def)
  from build_link_sets_page [OF i u] obtain link where
    l: "build_link example_self (Some 3) = Some link"
    and q: "CHR ''?'' \<notin> set ''https://api.example.com/things'' \<longrightarrow>
            link = ''https://api.example.com/things'' @ ''?page='' @ str_int 3"
    by blast
  from q example_no_query have "link = ''https://api.example.com/things?page=3''"
    by (simp add: str_int_3)
  with l i u show ?thesis by simp
qed

text \<open>
  The claim without the amendment fails at the index \<open>0\<close>, which is not null: there
  \<open>build_link\<close> returns null, not the URL with \<open>page=0\<close>.
\<close>

theorem build_link_sets_page_counterexample:
  "CHR ''?'' \<notin> set (build_absolute_uri example_request) \<and>
   request example_self = Some example_request \<and>
   build_link example_self (Some 0) = None \<and>
   build_link example_self (Some 0) \<noteq> Some (build_absolute_uri example_request @ ''?page=0'')"
  by (simp add: build_link_zero example_self_def example_request_def)

text \<open>
  C6, as amended: for every index \<open>p\<close> that is neither null nor \<open>0\<close> and every
  request whose URL has \<open>page=p\<close> as its one parameter \<open>page\<close>, \<open>build_link(p)\<close>
  returns the same URL aside from the order of the parameters: the same host and path
  and the same parameters, each as often.
\<close>

theorem build_link_same_page:
  assumes "i \<noteq> 0"
    and "request self = Some r"
    and "filter (\<lambda>q. fst q = ''page'') (snd (parse_url (build_absolute_uri r))) =
           [(''page'', Some (str_int i))]"
  shows "\<exists>link. build_link self (Some i) = Some link \<and>
           fst (parse_url link) = fst (parse_url (build_absolute_uri r)) \<and>
           mset (snd (parse_url link)) = mset (snd (parse_url (build_absolute_uri r)))"
proof -
  let ?ps = "snd (parse_url (build_absolute_uri r))"
  have "set_param ''page'' (str_int i) ?ps = ?ps"
    using filter_key_single [OF assms(3)] by (rule set_param_same)
  then have "replace_query_param (build_absolute_uri r) ''page'' i =
               unparse_url (parse_url (build_absolute_uri r))"
    by (simp only: replace_query_param_def split_beta prod.collapse)
  then have "build_link self (Some i) = Some (build_absolute_uri r)"
    using assms(1,2) by (simp add: build_link_Some unparse_parse_url)
  then show ?thesis
    by simp
qed

theorem build_link_same_page_witness:
  "(3::int) \<noteq> 0 \<and> request three_self = Some three_request \<and>
   filter (\<lambda>q. fst q = ''page'') (snd (parse_url (build_absolute_uri three_request))) =
     [(''page'', Some (str_int 3))] \<and>
   (\<exists>link. build_link three_self (Some 3) = Some link \<and>
      fst (parse_url link) = ''https://api.example.com/things'' \<and>
      mset (snd (parse_url link)) = {#(''sort'', Some ''name''), (''page'', Some ''3'')#})"
proof -
  have i: "(3::int) \<noteq> 0" by simp
  have r: "request three_self = Some three_request"
    by (simp add: three_self_def)
  have f: "filter (\<lambda>q. fst q = ''page'') (snd (parse_url (build_absolute_uri three_request))) =
     [(''page'', Some (str_int 3))]"
    by (simp add: three_request_def three_params str_int_3)
  have u: "parse_url (build_absolute_uri three_request) =
     (''https://api.example.com/things'', [(''sort'', Some ''name''), (''page'', Some ''3'')])"
    by (simp add: three_request_def three_params)
  from build_link_same_page [OF i r f]
  obtain link where l: "build_link three_self (Some 3) = Some link"
    and b: "fst (parse_url link) = fst (parse_url (build_absolute_uri three_request))"
    and m: "mset (snd (parse_url link)) = mset (snd (parse_url (build_absolute_uri three_request)))"
    by blast
  have b': "fst (parse_url link) = ''https://api.example.com/things''"
    using b by (simp only: u fst_conv)
  have m': "mset (snd (parse_url link)) = {#(''sort'', Some ''name''), (''page'', Some ''3'')#}"
    using m by (simp only: u snd_conv mset.simps add_mset_commute)
  show ?thesis
    by (intro conjI exI [of _ link] i r f l b' m')
qed

text \<open>
  The claim without the amendment fails at the index \<open>0\<close> on a URL with \<open>page=0\<close>,
  where \<open>build_link\<close> returns null, and at the index \<open>3\<close> on a URL with
  \<open>page=3&page=4\<close>, whose parameter \<open>page=4\<close> is not in the link.
\<close>

theorem build_link_same_page_counterexample:
  "request zero_self = Some zero_request \<and>
   (''page'', Some (str_int 0)) \<in> set (snd (parse_url (build_absolute_uri zero_request))) \<and>
   build_link zero_self (Some 0) = None \<and>
   build_link zero_self (Some 0) \<noteq> Some (build_absolute_uri zero_request) \<and>
   request twice_self = Some twice_request \<and>
   (''page'', Some (str_int 3)) \<in> set (snd (parse_url (build_absolute_uri twice_request))) \<and>
   (''page'', Some ''4'') \<in> set (snd (parse_url (build_absolute_uri twice_request))) \<and>
   build_link twice_self (Some 3) \<noteq> None \<and>
   (''page'', Some ''4'') \<notin> set (snd (parse_url (the (build_link twice_self (Some 3))))) \<and>
   build_link twice_self (Some 3) \<noteq> Some (build_absolute_uri twice_request)"
proof -
  let ?url = "build_absolute_uri twice_request"
  have z: "request zero_self = Some zero_request"
    "(''page'', Some (str_int 0)) \<in> set (snd (parse_url (build_absolute_uri zero_request)))"
    "build_link zero_self (Some 0) = None"
    by (simp_all add: build_link_zero zero_self_def zero_request_def zero_request_params str_int_0)
  have t: "request twice_self = Some twice_request"
    "(''page'', Some (str_int 3)) \<in> set (snd (parse_url ?url))"
    "(''page'', Some ''4'') \<in> set (snd (parse_url ?url))"
    by (simp_all add: twice_self_def twice_request_def twice_params str_int_3)
  have b: "build_link twice_self (Some 3) = Some (replace_query_param ?url ''page'' 3)"
    by (simp add: build_link_Some t(1))
  have p: "parse_url (replace_query_param ?url ''page'' 3) =
             (fst (parse_url ?url), set_param ''page'' (str_int 3) (snd (parse_url ?url)))"
    by (rule parse_replace_query_param) simp_all
  have n: "(''page'', Some ''4'') \<notin> set (snd (parse_url (replace_query_param ?url ''page'' 3)))"
  proof
    assume "(''page'', Some ''4'') \<in> set (snd (parse_url (replace_query_param ?url ''page'' 3)))"
    then have "(''page'', Some ''4'') \<in> set (set_param ''page'' (str_int 3) (snd (parse_url ?url)))"
      by (simp only: p snd_conv)
    then have "Some ''4'' = Some (str_int 3)"
      by (rule set_param_values)
    then show False
      by (simp add: str_int_3)
  qed
  have d: "replace_query_param ?url ''page'' 3 \<noteq> ?url"
  proof
    assume "replace_query_param ?url ''page'' 3 = ?url"
    with n t(3) show False by simp
  qed
  have "build_link zero_self (Some 0) \<noteq> Some (build_absolute_uri zero_request)"
    and "build_link twice_self (Some 3) \<noteq> None"
    and "(''page'', Some ''4'') \<notin> set (snd (parse_url (the (build_link twice_self (Some 3)))))"
    and "build_link twice_self (Some 3) \<noteq> Some (build_absolute_uri twice_request)"
    using z(3) n d by (simp_all add: b)
  with z t show ?thesis
    by blast
qed

end
